theory Spec2Isabelle
  imports Main "HOL-Library.AList"
begin

section \<open>The record generator of chat.common.util\<close>

text \<open>
  A shallow embedding of \<^verbatim>\<open>src/chat/common/util.py\<close>: the class \<^verbatim>\<open>Model\<close>, whose static
  and class methods build new classes at run time, and \<^verbatim>\<open>model_from_proto\<close>.

  Classes and instances are mutable objects that the code changes with \<^verbatim>\<open>setattr\<close>, so
  both live in an explicit store and are named by their address. A Python \<^verbatim>\<open>dict\<close> is
  an association list with unique keys in insertion order; \<^verbatim>\<open>d[k] = v\<close> is
  \<^const>\<open>AList.update\<close>, which keeps the position of a key that is already there.
  Every \<^verbatim>\<open>raise\<close> of the source is a constructor of \<open>error\<close>, and so are the
  exceptions that the interpreter raises on the paths modelled here: a call whose
  arguments do not fit the signature (a positional argument where only keywords are
  taken, a keyword that collides with the first parameter), an annotation that cannot be
  evaluated, an attribute that does not exist or cannot be written, an object that
  cannot be called.

  The class methods and the constructor are called with keyword arguments, as
  \<^verbatim>\<open>K.add_fields(**new_fields)\<close>, \<^verbatim>\<open>K.omit_fields(**rm_fields)\<close> and \<^verbatim>\<open>K(**kwargs)\<close>; the
  keys of a dictionary of keyword arguments are strings, any strings.
\<close>

subsection \<open>Values, classes, instances\<close>

type_synonym name = string

text \<open>
  The values that a field of an instance holds: \<^verbatim>\<open>None\<close>, integers, strings, booleans,
  lists of such values and instances of generated classes (by their address in the
  store). None of them is a class, a dictionary or a callable object, and this is all
  the generator can tell about a value it stores.
\<close>

datatype pyval =
    NoneV
  | IntV int
  | StrV string
  | BoolV bool
  | ListV "pyval list"
  | InstV nat

text \<open>
  The values that a schema holds in the place of a type. \<open>TypeV n\<close> is a class whose
  own type is exactly \<^verbatim>\<open>type\<close> (\<^verbatim>\<open>str\<close>, \<^verbatim>\<open>int\<close>, a plain user class), other than
  \<^verbatim>\<open>typing.Generic\<close>, which is \<open>GenericV\<close>; \<open>MetaTypeV n\<close> is a class with another
  metaclass (an \<^verbatim>\<open>Enum\<close> subclass, an abstract base class); \<open>NonTypeV v\<close> is a value
  that is not a class. Each of them has a \<^verbatim>\<open>repr\<close>, which the message of the error of
  line 55 formats.
\<close>

datatype sval =
    TypeV name
  | GenericV
  | MetaTypeV name
  | NonTypeV pyval

text \<open>The test \<^verbatim>\<open>type(value) is type\<close> of \<^verbatim>\<open>add_getters_setters\<close>.\<close>

fun type_is_type :: "sval \<Rightarrow> bool" where
  "type_is_type (TypeV n) = True"
| "type_is_type GenericV = True"
| "type_is_type v = False"


text \<open>
  What \<^verbatim>\<open>setattr(model, ...)\<close> stores on a class: the closure \<^verbatim>\<open>__impl_setter__\<close> or
  \<^verbatim>\<open>__impl_getter__\<close> with the \<^verbatim>\<open>private_name\<close> bound as its default argument, the
  function \<^verbatim>\<open>__impl_init__\<close>, or \<^verbatim>\<open>None\<close> (written by \<^verbatim>\<open>clean_getters_setters\<close>).
\<close>

datatype attr = Setter name | Getter name | Init | NoneA

record model =
  model_fields :: "(name \<times> sval) list"
  model_attrs :: "(name \<times> attr) list"

record inst =
  cls :: nat
  idict :: "(name \<times> pyval) list"

record state =
  classes :: "model list"
  objs :: "inst list"

definition empty_state :: state where
  "empty_state = \<lparr>classes = [], objs = []\<rparr>"

text \<open>
  The errors. \<open>ReservedName\<close>, \<open>NotAType\<close> and \<open>UnknownField\<close> are the three
  \<^verbatim>\<open>raise ValueError\<close> of class \<^verbatim>\<open>Model\<close> (lines 42, 55 and 122); \<open>NotInterface\<close>,
  \<open>NoFieldsEnum\<close> and \<open>NotEnum\<close> are those of \<^verbatim>\<open>model_from_proto\<close> (lines 141, 145, 159).
  \<open>TypeError\<close> and \<open>AttributeError\<close> are raised by the interpreter: a call whose
  arguments do not fit the signature or whose callee is not callable, a type that
  \<^verbatim>\<open>typing\<close> refuses as an argument, an attribute that does not exist or cannot be
  written.
\<close>

datatype error =
    ReservedName name
  | NotAType name sval
  | UnknownField name
  | NotInterface
  | NoFieldsEnum
  | NotEnum
  | TypeError string
  | AttributeError name

subsection \<open>Class Model\<close>

definition reserved_fields :: "name list" where
  "reserved_fields = [''_fields'', ''_reserved_fields'']"

text \<open>The names that the body of class \<^verbatim>\<open>Model\<close> binds (lines 23 to 127).\<close>

definition Model_attr_names :: "name list" where
  "Model_attr_names =
     [''_fields'', ''_reserved_fields'', ''serialize'', ''deserialize'',
      ''model_with_fields'', ''add_getters_setters'', ''clean_getters_setters'',
      ''add_fields'', ''omit_fields'']"

text \<open>
  \<^verbatim>\<open>dict(items)\<close> on a list of pairs: the pairs are inserted from left to right, so a
  repeated key keeps its first position and takes its last value.
\<close>

definition dict_of :: "('k \<times> 'v) list \<Rightarrow> ('k \<times> 'v) list" where
  "dict_of items = foldl (\<lambda>d (k, v). AList.update k v d) [] items"

text \<open>
  The loop of \<^verbatim>\<open>add_getters_setters\<close> (lines 52 to 83) over the items of
  \<^verbatim>\<open>model._fields\<close>, on the attributes of the class. It stops at the first value that
  is not a \<^verbatim>\<open>type\<close>. The statement \<^verbatim>\<open>def __impl_setter__\<close> then evaluates its
  annotation \<^verbatim>\<open>Optional[value]\<close>, which \<^verbatim>\<open>typing\<close> refuses for \<^verbatim>\<open>typing.Generic\<close>
  and for no other class whose type is \<^verbatim>\<open>type\<close>. In both cases the accessors installed
  for the earlier fields stay on the class.
\<close>

fun add_loop ::
  "(name \<times> sval) list \<Rightarrow> (name \<times> attr) list \<Rightarrow> error option \<times> (name \<times> attr) list" where
  "add_loop [] as = (None, as)"
| "add_loop ((n, v) # rest) as =
     (if \<not> type_is_type v then (Some (NotAType n v), as)
      else if v = GenericV then
        (Some (TypeError ''Plain typing.Generic is not valid as type argument''), as)
      else add_loop rest
             (AList.update (''get_'' @ n) (Getter (''_'' @ n))
               (AList.update (''set_'' @ n) (Setter (''_'' @ n)) as)))"

text \<open>
  \<^verbatim>\<open>dir(model)\<close>: the names bound on the class and on its base \<^verbatim>\<open>Model\<close>. The names
  of \<^verbatim>\<open>object\<close> all begin with two underscores and never match a prefix below, and the
  order of the listing does not matter, since each step writes only its own name.
\<close>

definition dir_model :: "model \<Rightarrow> name list" where
  "dir_model m = remdups (map fst (model_attrs m) @ Model_attr_names)"

text \<open>One iteration of the loop of \<^verbatim>\<open>clean_getters_setters\<close> (lines 102 to 109).\<close>

definition clean_step :: "(name \<times> sval) list \<Rightarrow> (name \<times> attr) list \<Rightarrow> name \<Rightarrow> (name \<times> attr) list" where
  "clean_step fs as a =
     (if take 4 a = ''get_'' then
        (if drop 4 a \<notin> set (map fst fs) then AList.update a NoneA as else as)
      else if take 4 a = ''set_'' then
        (if drop 4 a \<notin> set (map fst fs) then AList.update a NoneA as else as)
      else as)"

definition clean_getters_setters :: "state \<Rightarrow> nat \<Rightarrow> nat \<times> state" where
  "clean_getters_setters s r =
     (let m = classes s ! r;
          m' = m\<lparr>model_attrs := foldl (clean_step (model_fields m)) (model_attrs m) (dir_model m)\<rparr>
      in (r, s\<lparr>classes := (classes s)[r := m']\<rparr>))"

definition add_getters_setters :: "state \<Rightarrow> nat \<Rightarrow> (error + nat) \<times> state" where
  "add_getters_setters s r =
     (let m = classes s ! r in
      case add_loop (model_fields m) (model_attrs m) of
        (Some e, as) \<Rightarrow> (Inl e, s\<lparr>classes := (classes s)[r := m\<lparr>model_attrs := as\<rparr>]\<rparr>)
      | (None, as) \<Rightarrow>
          (let m1 = m\<lparr>model_attrs := AList.update ''__init__'' Init as\<rparr>;
               (r', s') = clean_getters_setters (s\<lparr>classes := (classes s)[r := m1]\<rparr>) r
           in (Inr r', s')))"

text \<open>
  \<^verbatim>\<open>model_with_fields(**fields)\<close> (lines 38 to 48). The signature takes keyword
  arguments only, so the call carries its positional arguments \<open>args\<close> too, and any
  positional argument is a \<^verbatim>\<open>TypeError\<close> before the body runs. The class statement
  allocates the new class, with a copy of \<open>kw\<close> as its \<^verbatim>\<open>_fields\<close>.
\<close>

definition model_with_fields ::
  "state \<Rightarrow> (name \<times> sval) list list \<Rightarrow> (name \<times> sval) list \<Rightarrow> (error + nat) \<times> state" where
  "model_with_fields s args kw =
     (if args \<noteq> [] then
        (Inl (TypeError ''model_with_fields() takes 0 positional arguments''), s)
      else case find (\<lambda>n. n \<in> set reserved_fields) (map fst kw) of
        Some n \<Rightarrow> (Inl (ReservedName n), s)
      | None \<Rightarrow>
          add_getters_setters
            (s\<lparr>classes := classes s @ [\<lparr>model_fields = kw, model_attrs = []\<rparr>]\<rparr>)
            (length (classes s)))"

text \<open>
  \<^verbatim>\<open>cls.add_fields(**new_fields)\<close> (lines 112 to 116). The class method names its first
  parameter \<^verbatim>\<open>cls\<close>, so a keyword \<^verbatim>\<open>cls\<close> collides with it and the call is a
  \<^verbatim>\<open>TypeError\<close> before the body runs.
\<close>

definition add_fields :: "state \<Rightarrow> nat \<Rightarrow> (name \<times> sval) list \<Rightarrow> (error + nat) \<times> state" where
  "add_fields s c new_fields =
     (if ''cls'' \<in> set (map fst new_fields) then
        (Inl (TypeError ''add_fields() got multiple values for argument cls''), s)
      else case model_with_fields s [] (dict_of (model_fields (classes s ! c) @ new_fields)) of
        (Inl e, s') \<Rightarrow> (Inl e, s')
      | (Inr r, s') \<Rightarrow> add_getters_setters s' r)"

text \<open>
  \<^verbatim>\<open>cls.omit_fields(**rm_fields)\<close> (lines 118 to 127), with the same collision on the
  keyword \<^verbatim>\<open>cls\<close>. Only the names of \<open>rm_fields\<close> are read, so its values are of any
  type. The remaining fields are handed to \<^verbatim>\<open>model_with_fields\<close> as one positional
  dictionary.
\<close>

definition omit_fields :: "state \<Rightarrow> nat \<Rightarrow> (name \<times> 'v) list \<Rightarrow> (error + nat) \<times> state" where
  "omit_fields s c rm_fields =
     (if ''cls'' \<in> set (map fst rm_fields) then
        (Inl (TypeError ''omit_fields() got multiple values for argument cls''), s)
      else case find (\<lambda>fname. fname \<notin> set (map fst (model_fields (classes s ! c))))
                  (map fst rm_fields) of
        Some fname \<Rightarrow> (Inl (UnknownField fname), s)
      | None \<Rightarrow>
          (case model_with_fields s
                  [filter (\<lambda>(n, t). n \<notin> set (map fst rm_fields)) (model_fields (classes s ! c))] [] of
             (Inl e, s') \<Rightarrow> (Inl e, s')
           | (Inr r, s') \<Rightarrow> add_getters_setters s' r))"

subsection \<open>Instances\<close>

text \<open>
  The attributes of an instance that \<^verbatim>\<open>object\<close> and the class statement guard with a
  data descriptor: they are not entries of the dictionary of the instance.
\<close>

definition data_descriptors :: "name list" where
  "data_descriptors = [''__class__'', ''__dict__'', ''__weakref__'']"

text \<open>
  \<^verbatim>\<open>setattr(self, a, v)\<close> on an instance, as a function of its dictionary. Under any
  other name the value is written into the dictionary. \<^verbatim>\<open>__class__\<close> takes a class
  only and \<^verbatim>\<open>__dict__\<close> a dictionary only, which no value of a field is, and
  \<^verbatim>\<open>__weakref__\<close> cannot be written at all.
\<close>

definition setattr_inst ::
  "(name \<times> pyval) list \<Rightarrow> name \<Rightarrow> pyval \<Rightarrow> error + (name \<times> pyval) list" where
  "setattr_inst d a v =
     (if a = ''__class__'' then Inl (TypeError ''__class__ must be set to a class'')
      else if a = ''__dict__'' then Inl (TypeError ''__dict__ must be set to a dictionary'')
      else if a = ''__weakref__'' then Inl (AttributeError ''__weakref__'')
      else Inr (AList.update a v d))"

text \<open>
  The loop of \<^verbatim>\<open>__impl_init__\<close> (lines 89 to 94) over the names of \<^verbatim>\<open>self._fields\<close>, on
  the dictionary of the new instance. \<^verbatim>\<open>getattr(self, 'set_' + name, lambda _: _)\<close>
  looks in the dictionary of the instance first, where any value found is not callable,
  then on the class, where the code binds a setter or (after cleaning) \<^verbatim>\<open>None\<close>, which
  is not callable either; the default is a function that does nothing. The setter found
  is \<^verbatim>\<open>__impl_setter__\<close> with its \<^verbatim>\<open>private_name\<close>.
\<close>

fun init_loop ::
  "(name \<times> attr) list \<Rightarrow> (name \<times> pyval) list \<Rightarrow> name list \<Rightarrow> (name \<times> pyval) list
     \<Rightarrow> error option \<times> (name \<times> pyval) list" where
  "init_loop ca kwargs [] d = (None, d)"
| "init_loop ca kwargs (n # ns) d =
     (case map_of kwargs n of
        Some v \<Rightarrow>
          (case map_of d (''set_'' @ n) of
             Some held \<Rightarrow> (Some (TypeError ''object is not callable''), d)
           | None \<Rightarrow>
               (case map_of ca (''set_'' @ n) of
                  None \<Rightarrow> init_loop ca kwargs ns d
                | Some (Setter p) \<Rightarrow>
                    (case setattr_inst d p v of
                       Inl e \<Rightarrow> (Some e, d)
                     | Inr d' \<Rightarrow> init_loop ca kwargs ns d')
                | Some other \<Rightarrow> (Some (TypeError ''object is not callable''), d)))
      | None \<Rightarrow>
          (case setattr_inst d (''_'' @ n) NoneV of
             Inl e \<Rightarrow> (Some e, d)
           | Inr d' \<Rightarrow> init_loop ca kwargs ns d'))"

text \<open>
  The call \<^verbatim>\<open>K(**kwargs)\<close>. A class without an \<^verbatim>\<open>__init__\<close> of its own inherits that
  of \<^verbatim>\<open>object\<close>, and \<^verbatim>\<open>object.__new__\<close> then refuses any argument before it creates
  anything. Otherwise a new object of class \<open>c\<close> with an empty dictionary is created and
  the \<^verbatim>\<open>__init__\<close> of the class is called on it: \<^verbatim>\<open>__impl_init__(self, **kwargs)\<close>, whose
  first parameter a keyword \<^verbatim>\<open>self\<close> collides with.
\<close>

definition new_instance :: "state \<Rightarrow> nat \<Rightarrow> (name \<times> pyval) list \<Rightarrow> (error + nat) \<times> state" where
  "new_instance s c kwargs =
     (let m = classes s ! c;
          i = length (objs s);
          s1 = s\<lparr>objs := objs s @ [\<lparr>cls = c, idict = []\<rparr>]\<rparr>
      in case map_of (model_attrs m) ''__init__'' of
           Some Init \<Rightarrow>
             (if ''self'' \<in> set (map fst kwargs) then
                (Inl (TypeError ''__impl_init__() got multiple values for argument self''), s1)
              else case init_loop (model_attrs m) kwargs (map fst (model_fields m)) [] of
                (Some e, d) \<Rightarrow> (Inl e, s1\<lparr>objs := (objs s1)[i := \<lparr>cls = c, idict = d\<rparr>]\<rparr>)
              | (None, d) \<Rightarrow> (Inr i, s1\<lparr>objs := (objs s1)[i := \<lparr>cls = c, idict = d\<rparr>]\<rparr>))
         | Some other \<Rightarrow> (Inl (TypeError ''object is not callable''), s1)
         | None \<Rightarrow>
             (if kwargs = [] then (Inr i, s1)
              else (Inl (TypeError ''takes no arguments''), s)))"


text \<open>
  What a getter returns: a value held by the instance, or \<open>FromType c a\<close>, which stands
  for whatever the class \<open>c\<close> of the instance and its bases yield for the name \<open>a\<close>
  (\<^verbatim>\<open>None\<close>, the default, where they bind nothing under it).
\<close>

datatype got = Val pyval | FromType nat name

text \<open>
  \<^verbatim>\<open>__impl_getter__\<close> (lines 79 to 81): \<^verbatim>\<open>getattr(self, private_name, None)\<close>. A data
  descriptor of the type comes before the dictionary of the instance.
\<close>

definition impl_getter :: "state \<Rightarrow> nat \<Rightarrow> name \<Rightarrow> got" where
  "impl_getter s self private_name =
     (if private_name \<in> set data_descriptors then FromType (cls (objs s ! self)) private_name
      else case map_of (idict (objs s ! self)) private_name of
        Some v \<Rightarrow> Val v
      | None \<Rightarrow> FromType (cls (objs s ! self)) private_name)"


definition call_get :: "state \<Rightarrow> nat \<Rightarrow> name \<Rightarrow> error + got" where
  "call_get s i f =
     (case map_of (idict (objs s ! i)) (''get_'' @ f) of
        Some held \<Rightarrow> Inl (TypeError ''object is not callable'')
      | None \<Rightarrow>
          (case map_of (model_attrs (classes s ! cls (objs s ! i))) (''get_'' @ f) of
             Some (Getter p) \<Rightarrow> Inr (impl_getter s i p)
           | Some other \<Rightarrow> Inl (TypeError ''object is not callable'')
           | None \<Rightarrow> Inl (AttributeError (''get_'' @ f))))"

subsection \<open>model_from_proto\<close>

text \<open>
  The argument of \<^verbatim>\<open>model_from_proto\<close>: a class, whether it is a subclass of
  \<^verbatim>\<open>Interface\<close>, and its attribute \<^verbatim>\<open>_fields_enum\<close> if it has one, which is either an
  \<^verbatim>\<open>Enum\<close> class with its members (name and value, in order) or some other value.
\<close>

datatype fields_enum = EnumClass "(name \<times> sval) list" | NotAnEnum sval

record iface =
  subclass_of_Interface :: bool
  fields_enum_attr :: "fields_enum option"

text \<open>
  The static methods of \<^verbatim>\<open>Model\<close> by name: \<^verbatim>\<open>model_with_fields\<close> is the only one the
  class defines.
\<close>

definition Model_staticmethod ::
  "name \<Rightarrow> (state \<Rightarrow> (name \<times> sval) list list \<Rightarrow> (name \<times> sval) list \<Rightarrow> (error + nat) \<times> state) option" where
  "Model_staticmethod n = (if n = ''model_with_fields'' then Some model_with_fields else None)"

text \<open>
  \<^verbatim>\<open>model_from_proto(iface)\<close> (lines 130 to 167). The last statement looks up
  \<^verbatim>\<open>Model.model_from_fields\<close> before it evaluates the arguments.
\<close>

definition model_from_proto :: "state \<Rightarrow> iface \<Rightarrow> (error + nat) \<times> state" where
  "model_from_proto s i =
     (if \<not> subclass_of_Interface i then (Inl NotInterface, s)
      else case fields_enum_attr i of
        None \<Rightarrow> (Inl NoFieldsEnum, s)
      | Some (NotAnEnum v) \<Rightarrow> (Inl NotEnum, s)
      | Some (EnumClass members) \<Rightarrow>
          (case Model_staticmethod ''model_from_fields'' of
             None \<Rightarrow> (Inl (AttributeError ''model_from_fields''), s)
           | Some f \<Rightarrow> f s [] (dict_of members)))"

subsection \<open>A compiled kind used in the examples\<close>

text \<open>
  The kind of the scenario \<^verbatim>\<open>{username: str, logged_in: bool}\<close>, as
  \<^verbatim>\<open>model_with_fields\<close> leaves it in an empty store.
\<close>

definition user_state :: state where
  "user_state =
     \<lparr>classes =
        [\<lparr>model_fields = [(''username'', TypeV ''str''), (''logged_in'', TypeV ''bool'')],
          model_attrs =
            [(''set_username'', Setter ''_username''),
             (''get_username'', Getter ''_username''),
             (''set_logged_in'', Setter ''_logged_in''),
             (''get_logged_in'', Getter ''_logged_in''),
             (''__init__'', Init)]\<rparr>],
      objs = []\<rparr>"

text \<open>
  A class is compiled when it carries the accessors of each of its fields and the
  synthesized constructor.
\<close>

definition compiled :: "model \<Rightarrow> bool" where
  "compiled m \<longleftrightarrow>
     map_of (model_attrs m) ''__init__'' = Some Init \<and>
     (\<forall>n \<in> set (map fst (model_fields m)).
        map_of (model_attrs m) (''set_'' @ n) = Some (Setter (''_'' @ n)) \<and>
        map_of (model_attrs m) (''get_'' @ n) = Some (Getter (''_'' @ n)))"

text \<open>
  A dictionary of an instance as the constructor and the setters of a compiled kind
  leave it: every key is a private name, which begins with an underscore.
\<close>

definition private_keys :: "(name \<times> pyval) list \<Rightarrow> bool" where
  "private_keys d \<longleftrightarrow> (\<forall>k \<in> set (map fst d). take 1 k = ''_'')"

section \<open>Properties\<close>

subsection \<open>The example kind is what compilation yields\<close>

lemma user_state_compiled:
  "model_with_fields empty_state []
     [(''username'', TypeV ''str''), (''logged_in'', TypeV ''bool'')] = (Inr 0, user_state)"
  by (simp add: model_with_fields_def empty_state_def reserved_fields_def
      add_getters_setters_def clean_getters_setters_def user_state_def dir_model_def
      Model_attr_names_def clean_step_def)

subsection \<open>Name checks\<close>

lemma find_some_if_exists:
  "\<exists>x\<in>set xs. P x \<Longrightarrow> \<exists>m. find P xs = Some m \<and> P m \<and> m \<in> set xs"
  by (induction xs) auto

text \<open>
  C8. A schema that holds a reserved name at any position is rejected with
  \<open>ReservedName\<close>: no class is allocated and the store is as before.
\<close>

theorem reserved_name_rejected:
  assumes "\<exists>n \<in> set (map fst kw). n \<in> set reserved_fields"
  shows "\<exists>m. m \<in> set (map fst kw) \<and> m \<in> set reserved_fields \<and>
             model_with_fields s [] kw = (Inl (ReservedName m), s)"
proof -
  from find_some_if_exists [OF assms]
  obtain m where "find (\<lambda>n. n \<in> set reserved_fields) (map fst kw) = Some m"
    and "m \<in> set reserved_fields" and "m \<in> set (map fst kw)"
    by blast
  then show ?thesis
    by (auto simp: model_with_fields_def)
qed

theorem reserved_name_rejected_witness:
  "model_with_fields empty_state []
     [(''a'', NonTypeV (IntV 3)), (''_reserved_fields'', TypeV ''str'')]
     = (Inl (ReservedName ''_reserved_fields''), empty_state)"
  using reserved_name_rejected
    [of "[(''a'', NonTypeV (IntV 3)), (''_reserved_fields'', TypeV ''str'')]" empty_state]
  by (auto simp: reserved_fields_def)

text \<open>
  C9, as the code has it. If a name to omit is not a field of the class, and no name to
  omit is \<^verbatim>\<open>cls\<close>, then \<^verbatim>\<open>omit_fields\<close> raises the \<open>UnknownField\<close> error for such a
  name, and the store is as before.
\<close>

theorem omit_unknown_field:
  assumes "\<exists>n \<in> set (map fst rm_fields). n \<notin> set (map fst (model_fields (classes s ! c)))"
    and "''cls'' \<notin> set (map fst rm_fields)"
  shows "\<exists>m. m \<in> set (map fst rm_fields) \<and>
             m \<notin> set (map fst (model_fields (classes s ! c))) \<and>
             omit_fields s c rm_fields = (Inl (UnknownField m), s)"
proof -
  from find_some_if_exists [OF assms(1)]
  obtain m where
    "find (\<lambda>fname. fname \<notin> set (map fst (model_fields (classes s ! c)))) (map fst rm_fields)
       = Some m"
    and "m \<notin> set (map fst (model_fields (classes s ! c)))" and "m \<in> set (map fst rm_fields)"
    by blast
  with assms(2) show ?thesis
    by (auto simp: omit_fields_def)
qed

theorem omit_unknown_field_witness:
  "omit_fields user_state 0 [(''username'', NoneV), (''email'', NoneV)]
     = (Inl (UnknownField ''email''), user_state)"
  using omit_unknown_field [of "[(''username'', NoneV), (''email'', NoneV)]" user_state 0]
  by (auto simp: user_state_def)

text \<open>
  C9 as stated fails for the name \<^verbatim>\<open>cls\<close>: it is not a field of the kind
  \<^verbatim>\<open>{username: str, logged_in: bool}\<close>, and omitting it ends in a \<open>TypeError\<close>, since
  the keyword collides with the first parameter of the class method.
\<close>

theorem omit_unknown_field_counterexample:
  "''cls'' \<notin> set (map fst (model_fields (classes user_state ! 0))) \<and>
   omit_fields user_state 0 [(''cls'', NoneV)]
     = (Inl (TypeError ''omit_fields() got multiple values for argument cls''), user_state)"
  by (simp add: omit_fields_def user_state_def)

subsection \<open>Derivation by omission, and the adapter\<close>

text \<open>
  \<^verbatim>\<open>omit_fields\<close> never returns a class: past the name check it calls
  \<^verbatim>\<open>model_with_fields\<close> with a positional argument. It never changes the store either.
\<close>

lemma omit_fields_never_returns: "fst (omit_fields s c rm_fields) \<noteq> Inr r"
  by (simp add: omit_fields_def model_with_fields_def split: option.splits)

lemma omit_fields_state: "snd (omit_fields s c rm_fields) = s"
  by (simp add: omit_fields_def model_with_fields_def split: option.splits)

text \<open>
  C1. Omitting the declared field \<^verbatim>\<open>logged_in\<close> of the kind
  \<^verbatim>\<open>{username: str, logged_in: bool}\<close> does not return the kind \<^verbatim>\<open>{username: str}\<close>:
  the call ends in a \<open>TypeError\<close>.
\<close>

theorem omit_fields_type_error:
  "omit_fields user_state 0 [(''logged_in'', NoneV)]
     = (Inl (TypeError ''model_with_fields() takes 0 positional arguments''), user_state)"
  by (simp add: omit_fields_def model_with_fields_def user_state_def)

text \<open>\<^verbatim>\<open>model_from_proto\<close> never returns a class.\<close>

lemma model_from_proto_never_returns: "fst (model_from_proto s i) \<noteq> Inr r"
  by (simp add: model_from_proto_def Model_staticmethod_def
      split: option.splits fields_enum.splits)

text \<open>
  C2. For a subclass of \<^verbatim>\<open>Interface\<close> whose \<^verbatim>\<open>_fields_enum\<close> is an \<^verbatim>\<open>Enum\<close> with
  string names and type values, \<^verbatim>\<open>model_from_proto\<close> returns no class: the lookup of
  \<^verbatim>\<open>Model.model_from_fields\<close> ends in an \<open>AttributeError\<close>.
\<close>

theorem model_from_proto_attribute_error:
  "model_from_proto empty_state
     \<lparr>subclass_of_Interface = True,
      fields_enum_attr =
        Some (EnumClass [(''username'', TypeV ''str''), (''logged_in'', TypeV ''bool'')])\<rparr>
   = (Inl (AttributeError ''model_from_fields''), empty_state)"
  by (simp add: model_from_proto_def Model_staticmethod_def)

subsection \<open>What the operations leave alone\<close>

lemma clean_getters_setters_fst: "fst (clean_getters_setters s r) = r"
  by (simp add: clean_getters_setters_def Let_def)

lemma clean_getters_setters_frame:
  "k \<noteq> r \<Longrightarrow> classes (snd (clean_getters_setters s r)) ! k = classes s ! k"
  by (simp add: clean_getters_setters_def Let_def)

lemma clean_getters_setters_length:
  "length (classes (snd (clean_getters_setters s r))) = length (classes s)"
  by (simp add: clean_getters_setters_def Let_def)

lemma clean_getters_setters_objs: "objs (snd (clean_getters_setters s r)) = objs s"
  by (simp add: clean_getters_setters_def Let_def)

lemma add_getters_setters_frame:
  "k \<noteq> r \<Longrightarrow> classes (snd (add_getters_setters s r)) ! k = classes s ! k"
  by (simp add: add_getters_setters_def clean_getters_setters_def Let_def
      split: prod.splits option.splits)

lemma add_getters_setters_length:
  "length (classes (snd (add_getters_setters s r))) = length (classes s)"
  by (simp add: add_getters_setters_def clean_getters_setters_def Let_def
      split: prod.splits option.splits)

lemma add_getters_setters_objs: "objs (snd (add_getters_setters s r)) = objs s"
  by (simp add: add_getters_setters_def clean_getters_setters_def Let_def
      split: prod.splits option.splits)

lemma add_getters_setters_returns:
  "fst (add_getters_setters s r) = Inr r' \<Longrightarrow> r' = r"
  by (simp add: add_getters_setters_def clean_getters_setters_def Let_def
      split: prod.splits option.splits)

lemma model_with_fields_frame:
  "k < length (classes s) \<Longrightarrow> classes (snd (model_with_fields s args kw)) ! k = classes s ! k"
  by (simp add: model_with_fields_def add_getters_setters_frame nth_append
      split: option.splits)

lemma model_with_fields_objs: "objs (snd (model_with_fields s args kw)) = objs s"
  by (simp add: model_with_fields_def add_getters_setters_objs split: option.splits)

lemma model_with_fields_returns:
  "fst (model_with_fields s args kw) = Inr r \<Longrightarrow>
     r = length (classes s) \<and> length (classes (snd (model_with_fields s args kw))) = Suc (length (classes s))"
  by (auto simp: model_with_fields_def add_getters_setters_length
      dest: add_getters_setters_returns split: option.splits if_splits)

lemma add_fields_frame:
  assumes "k < length (classes s)"
  shows "classes (snd (add_fields s c new_fields)) ! k = classes s ! k"
proof (cases "''cls'' \<in> set (map fst new_fields)")
  case True
  then show ?thesis by (simp add: add_fields_def)
next
  case False
  let ?kw = "dict_of (model_fields (classes s ! c) @ new_fields)"
  obtain res s' where mwf: "model_with_fields s [] ?kw = (res, s')"
    by (cases "model_with_fields s [] ?kw")
  have s': "classes s' ! k = classes s ! k"
    using model_with_fields_frame [OF assms, of "[]" ?kw] mwf by simp
  show ?thesis
  proof (cases res)
    case (Inl e)
    with mwf s' False show ?thesis by (simp add: add_fields_def)
  next
    case (Inr r)
    with mwf have "r = length (classes s)"
      using model_with_fields_returns [of s "[]" ?kw r] by simp
    with assms have "k \<noteq> r" by simp
    with Inr mwf s' False show ?thesis
      by (simp add: add_fields_def add_getters_setters_frame)
  qed
qed

text \<open>
  C4. Deriving from a class of the store, by \<^verbatim>\<open>add_fields\<close> or by \<^verbatim>\<open>omit_fields\<close>,
  leaves that class as it was (its \<^verbatim>\<open>_fields\<close> and the attributes set on it), whatever
  the call returns.
\<close>

theorem derivation_leaves_kind_unchanged:
  assumes "c < length (classes s)"
  shows "classes (snd (add_fields s c new_fields)) ! c = classes s ! c \<and>
         classes (snd (omit_fields s c rm_fields)) ! c = classes s ! c"
  using add_fields_frame [OF assms] by (simp add: omit_fields_state)

theorem derivation_leaves_kind_unchanged_witness:
  "0 < length (classes user_state) \<and>
   classes (snd (add_fields user_state 0 [(''active_since'', TypeV ''int'')])) ! 0
     = classes user_state ! 0 \<and>
   classes (snd (omit_fields user_state 0 [(''logged_in'', NoneV)])) ! 0
     = classes user_state ! 0"
proof -
  have valid: "(0::nat) < length (classes user_state)"
    by (simp add: user_state_def)
  from derivation_leaves_kind_unchanged [OF valid] valid
  show ?thesis by blast
qed

subsection \<open>What compilation installs\<close>

lemma add_loop_ok_iff:
  "fst (add_loop fs as) = None \<longleftrightarrow> (\<forall>v \<in> set (map snd fs). type_is_type v \<and> v \<noteq> GenericV)"
  by (induction fs as rule: add_loop.induct) auto


lemma add_loop_keeps_setter:
  "map_of as (''set_'' @ n) = Some (Setter (''_'' @ n)) \<Longrightarrow>
   map_of (snd (add_loop fs as)) (''set_'' @ n) = Some (Setter (''_'' @ n))"
  by (induction fs as rule: add_loop.induct) (auto simp: update_conv')

lemma add_loop_keeps_getter:
  "map_of as (''get_'' @ n) = Some (Getter (''_'' @ n)) \<Longrightarrow>
   map_of (snd (add_loop fs as)) (''get_'' @ n) = Some (Getter (''_'' @ n))"
  by (induction fs as rule: add_loop.induct) (auto simp: update_conv')

lemma add_loop_setter:
  "fst (add_loop fs as) = None \<Longrightarrow> n \<in> set (map fst fs) \<Longrightarrow>
   map_of (snd (add_loop fs as)) (''set_'' @ n) = Some (Setter (''_'' @ n))"
proof (induction fs as rule: add_loop.induct)
  case (1 as)
  then show ?case by simp
next
  case (2 m v rest as)
  let ?as = "AList.update (''get_'' @ m) (Getter (''_'' @ m))
               (AList.update (''set_'' @ m) (Setter (''_'' @ m)) as)"
  from "2.prems" have ty: "type_is_type v" and gen: "v \<noteq> GenericV"
    and rest: "fst (add_loop rest ?as) = None"
    by (auto split: if_splits)
  show ?case
  proof (cases "n = m")
    case True
    have "map_of ?as (''set_'' @ n) = Some (Setter (''_'' @ n))"
      using True by (simp add: update_conv')
    from add_loop_keeps_setter [OF this, of rest] ty gen show ?thesis
      by simp
  next
    case False
    with "2.prems" have "n \<in> set (map fst rest)" by auto
    with "2.IH" ty gen rest show ?thesis by simp
  qed
qed

lemma add_loop_getter:
  "fst (add_loop fs as) = None \<Longrightarrow> n \<in> set (map fst fs) \<Longrightarrow>
   map_of (snd (add_loop fs as)) (''get_'' @ n) = Some (Getter (''_'' @ n))"
proof (induction fs as rule: add_loop.induct)
  case (1 as)
  then show ?case by simp
next
  case (2 m v rest as)
  let ?as = "AList.update (''get_'' @ m) (Getter (''_'' @ m))
               (AList.update (''set_'' @ m) (Setter (''_'' @ m)) as)"
  from "2.prems" have ty: "type_is_type v" and gen: "v \<noteq> GenericV"
    and rest: "fst (add_loop rest ?as) = None"
    by (auto split: if_splits)
  show ?case
  proof (cases "n = m")
    case True
    have "map_of ?as (''get_'' @ n) = Some (Getter (''_'' @ n))"
      using True by (simp add: update_conv')
    from add_loop_keeps_getter [OF this, of rest] ty gen show ?thesis
      by simp
  next
    case False
    with "2.prems" have "n \<in> set (map fst rest)" by auto
    with "2.IH" ty gen rest show ?thesis by simp
  qed
qed

text \<open>Cleaning writes only names whose suffix is not a field.\<close>

lemma clean_step_other:
  "(take 4 k = ''get_'' \<or> take 4 k = ''set_'' \<longrightarrow> drop 4 k \<in> set (map fst fs)) \<Longrightarrow>
   map_of (clean_step fs as a) k = map_of as k"
  by (auto simp: clean_step_def update_conv')

lemma clean_loop_other:
  "(take 4 k = ''get_'' \<or> take 4 k = ''set_'' \<longrightarrow> drop 4 k \<in> set (map fst fs)) \<Longrightarrow>
   map_of (foldl (clean_step fs) as names) k = map_of as k"
  by (induction names arbitrary: as) (simp_all add: clean_step_other)

lemma add_getters_setters_ok:
  assumes r: "r < length (classes s)"
    and ty: "\<forall>v \<in> set (map snd (model_fields (classes s ! r))). type_is_type v \<and> v \<noteq> GenericV"
  shows "fst (add_getters_setters s r) = Inr r"
    and "model_fields (classes (snd (add_getters_setters s r)) ! r) = model_fields (classes s ! r)"
    and "compiled (classes (snd (add_getters_setters s r)) ! r)"
proof -
  let ?m = "classes s ! r"
  obtain e as where al: "add_loop (model_fields ?m) (model_attrs ?m) = (e, as)"
    by (cases "add_loop (model_fields ?m) (model_attrs ?m)")
  with ty have e: "e = None"
    using add_loop_ok_iff [of "model_fields ?m" "model_attrs ?m"] by simp
  show "fst (add_getters_setters s r) = Inr r"
    using al e by (simp add: add_getters_setters_def clean_getters_setters_def Let_def)
  show "model_fields (classes (snd (add_getters_setters s r)) ! r) = model_fields ?m"
    using al e r by (simp add: add_getters_setters_def clean_getters_setters_def Let_def)
  have attrs: "model_attrs (classes (snd (add_getters_setters s r)) ! r)
      = foldl (clean_step (model_fields ?m)) (AList.update ''__init__'' Init as)
          (dir_model (?m\<lparr>model_attrs := AList.update ''__init__'' Init as\<rparr>))"
    using al e r by (simp add: add_getters_setters_def clean_getters_setters_def Let_def)
  have fields: "model_fields (classes (snd (add_getters_setters s r)) ! r) = model_fields ?m"
    by fact
  have init: "map_of (model_attrs (classes (snd (add_getters_setters s r)) ! r)) ''__init__'' = Some Init"
    unfolding attrs by (subst clean_loop_other) (simp_all add: update_conv')
  have acc: "map_of (model_attrs (classes (snd (add_getters_setters s r)) ! r)) (''set_'' @ n)
               = Some (Setter (''_'' @ n)) \<and>
             map_of (model_attrs (classes (snd (add_getters_setters s r)) ! r)) (''get_'' @ n)
               = Some (Getter (''_'' @ n))"
    if n: "n \<in> set (map fst (model_fields ?m))" for n
  proof -
    have s: "map_of as (''set_'' @ n) = Some (Setter (''_'' @ n))"
      using add_loop_setter [of "model_fields ?m" "model_attrs ?m" n] al e n by simp
    have g: "map_of as (''get_'' @ n) = Some (Getter (''_'' @ n))"
      using add_loop_getter [of "model_fields ?m" "model_attrs ?m" n] al e n by simp
    have "map_of (model_attrs (classes (snd (add_getters_setters s r)) ! r)) (''set_'' @ n)
            = map_of (AList.update ''__init__'' Init as) (''set_'' @ n)"
      unfolding attrs using n by (subst clean_loop_other) simp_all
    moreover have "map_of (model_attrs (classes (snd (add_getters_setters s r)) ! r)) (''get_'' @ n)
            = map_of (AList.update ''__init__'' Init as) (''get_'' @ n)"
      unfolding attrs using n by (subst clean_loop_other) simp_all
    ultimately show ?thesis using s g by (simp add: update_conv')
  qed
  show "compiled (classes (snd (add_getters_setters s r)) ! r)"
    unfolding compiled_def fields using init acc by blast
qed

lemma add_getters_setters_result:
  "fst (add_getters_setters s r) =
     (case fst (add_loop (model_fields (classes s ! r)) (model_attrs (classes s ! r))) of
        Some e \<Rightarrow> Inl e
      | None \<Rightarrow> Inr r)"
  by (simp add: add_getters_setters_def clean_getters_setters_def Let_def
      split: prod.splits option.splits)

lemma model_with_fields_unreserved:
  assumes "\<forall>n \<in> set (map fst kw). n \<notin> set reserved_fields"
  shows "model_with_fields s [] kw =
           add_getters_setters
             (s\<lparr>classes := classes s @ [\<lparr>model_fields = kw, model_attrs = []\<rparr>]\<rparr>)
             (length (classes s))"
proof -
  have "find (\<lambda>n. n \<in> set reserved_fields) (map fst kw) = None"
    using assms by (simp add: find_None_iff)
  then show ?thesis by (simp add: model_with_fields_def)
qed

lemma model_with_fields_ok:
  assumes res: "\<forall>n \<in> set (map fst kw). n \<notin> set reserved_fields"
    and ty: "\<forall>v \<in> set (map snd kw). type_is_type v \<and> v \<noteq> GenericV"
  shows "fst (model_with_fields s [] kw) = Inr (length (classes s))"
    and "model_fields (classes (snd (model_with_fields s [] kw)) ! length (classes s)) = kw"
    and "compiled (classes (snd (model_with_fields s [] kw)) ! length (classes s))"
proof -
  let ?s = "s\<lparr>classes := classes s @ [\<lparr>model_fields = kw, model_attrs = []\<rparr>]\<rparr>"
  let ?r = "length (classes s)"
  have r: "?r < length (classes ?s)" by simp
  have ty': "\<forall>v \<in> set (map snd (model_fields (classes ?s ! ?r))). type_is_type v \<and> v \<noteq> GenericV"
    using ty by simp
  note ok = add_getters_setters_ok [OF r ty']
  show "fst (model_with_fields s [] kw) = Inr ?r"
    using ok(1) by (simp only: model_with_fields_unreserved [OF res])
  show "model_fields (classes (snd (model_with_fields s [] kw)) ! ?r) = kw"
    using ok(2) by (simp add: model_with_fields_unreserved [OF res])
  show "compiled (classes (snd (model_with_fields s [] kw)) ! ?r)"
    using ok(3) by (simp only: model_with_fields_unreserved [OF res])
qed




subsection \<open>Dictionaries built from lists of pairs\<close>

lemma set_update_subset: "set (AList.update k v al) \<subseteq> insert (k, v) (set al)"
  by (induction al) auto

lemma dict_loop_keys:
  "fst ` set (foldl (\<lambda>d (k, v). AList.update k v d) d xs) = fst ` set d \<union> fst ` set xs"
proof (induction xs arbitrary: d)
  case Nil
  then show ?case by simp
next
  case (Cons x xs)
  obtain k v where x: "x = (k, v)" by (cases x)
  have "fst ` set (foldl (\<lambda>d (k, v). AList.update k v d) (AList.update k v d) xs)
          = fst ` set (AList.update k v d) \<union> fst ` set xs"
    by (rule Cons.IH)
  also have "\<dots> = fst ` set d \<union> fst ` set (x # xs)"
    unfolding dom_update x by auto
  finally show ?case using x by simp
qed

lemma dict_loop_items:
  "set (foldl (\<lambda>d (k, v). AList.update k v d) d xs) \<subseteq> set d \<union> set xs"
proof (induction xs arbitrary: d)
  case Nil
  then show ?case by simp
next
  case (Cons x xs)
  obtain k v where x: "x = (k, v)" by (cases x)
  have "set (foldl (\<lambda>d (k, v). AList.update k v d) (AList.update k v d) xs)
          \<subseteq> set (AList.update k v d) \<union> set xs"
    by (rule Cons.IH)
  also have "\<dots> \<subseteq> insert (k, v) (set d) \<union> set xs"
    using set_update_subset [of k v d] by blast
  finally show ?case using x by auto
qed

lemma dict_loop_distinct:
  "distinct (map fst d) \<Longrightarrow> distinct (map fst (foldl (\<lambda>d (k, v). AList.update k v d) d xs))"
  by (induction xs arbitrary: d) (auto simp: distinct_update)

lemma dict_loop_map_of:
  "map_of (foldl (\<lambda>d (k, v). AList.update k v d) d xs) = map_of d ++ map_of (rev xs)"
proof (induction xs arbitrary: d)
  case Nil
  then show ?case by simp
next
  case (Cons x xs)
  obtain k v where x: "x = (k, v)" by (cases x)
  have "map_of (foldl (\<lambda>d (k, v). AList.update k v d) (AList.update k v d) xs)
          = map_of (AList.update k v d) ++ map_of (rev xs)"
    by (rule Cons.IH)
  also have "\<dots> = (map_of d ++ [k \<mapsto> v]) ++ map_of (rev xs)"
    by (simp add: update_conv')
  also have "\<dots> = map_of d ++ map_of (rev (x # xs))"
    using x by (simp add: map_add_assoc)
  finally show ?case using x by simp
qed

lemma dict_of_keys: "set (map fst (dict_of xs)) = set (map fst xs)"
  using dict_loop_keys [of "[]" xs] by (simp add: dict_of_def)

lemma dict_of_values: "set (map snd (dict_of xs)) \<subseteq> set (map snd xs)"
  using dict_loop_items [of "[]" xs] by (auto simp: dict_of_def)

lemma dict_of_distinct: "distinct (map fst (dict_of xs))"
  using dict_loop_distinct [of "[]" xs] by (simp add: dict_of_def)

lemma dict_of_map_of: "map_of (dict_of xs) = map_of (rev xs)"
  using dict_loop_map_of [of "[]" xs] by (simp add: dict_of_def)

lemma map_of_rev_distinct: "distinct (map fst xs) \<Longrightarrow> map_of (rev xs) = map_of xs"
  by (rule map_of_inject_set [THEN iffD2]) (simp_all add: distinct_rev rev_map [symmetric])

lemma dict_of_append_lookup:
  assumes "distinct (map fst ys)" and "n \<in> set (map fst ys)"
  shows "map_of (dict_of (xs @ ys)) n = map_of ys n"
proof -
  from assms(2) obtain v where v: "map_of (rev ys) n = Some v"
    using map_of_eq_None_iff [of "rev ys" n] by (cases "map_of (rev ys) n") auto
  have "map_of (dict_of (xs @ ys)) n = (map_of (rev xs) ++ map_of (rev ys)) n"
    by (simp add: dict_of_map_of)
  also have "\<dots> = map_of (rev ys) n"
    using v by (simp add: map_add_def)
  finally show ?thesis
    by (simp add: map_of_rev_distinct [OF assms(1)])
qed

subsection \<open>Derivation by addition\<close>

lemma add_fields_ok:
  assumes res: "\<forall>m \<in> set (map fst (model_fields (classes s ! c) @ new_fields)).
                  m \<notin> set reserved_fields"
    and ty: "\<forall>v \<in> set (map snd (model_fields (classes s ! c) @ new_fields)).
               type_is_type v \<and> v \<noteq> GenericV"
    and cls: "''cls'' \<notin> set (map fst new_fields)"
  shows "fst (add_fields s c new_fields) = Inr (length (classes s))"
    and "model_fields (classes (snd (add_fields s c new_fields)) ! length (classes s))
           = dict_of (model_fields (classes s ! c) @ new_fields)"
    and "compiled (classes (snd (add_fields s c new_fields)) ! length (classes s))"
proof -
  let ?kw = "dict_of (model_fields (classes s ! c) @ new_fields)"
  let ?r = "length (classes s)"
  have res': "\<forall>m \<in> set (map fst ?kw). m \<notin> set reserved_fields"
    using res by (simp only: dict_of_keys)
  have ty': "\<forall>v \<in> set (map snd ?kw). type_is_type v \<and> v \<noteq> GenericV"
    using ty dict_of_values [of "model_fields (classes s ! c) @ new_fields"] by blast
  note mwf = model_with_fields_ok [OF res' ty', of s]
  obtain s' where s': "model_with_fields s [] ?kw = (Inr ?r, s')"
    using mwf(1) by (cases "model_with_fields s [] ?kw") simp
  have af: "add_fields s c new_fields = add_getters_setters s' ?r"
    using s' cls by (simp add: add_fields_def)
  have r: "?r < length (classes s')"
    using model_with_fields_returns [of s "[]" ?kw ?r] s' by simp
  have fs: "model_fields (classes s' ! ?r) = ?kw"
    using mwf(2) s' by simp
  have ty'': "\<forall>v \<in> set (map snd (model_fields (classes s' ! ?r))).
      type_is_type v \<and> v \<noteq> GenericV"
    using ty' by (simp only: fs)
  note ags = add_getters_setters_ok [OF r ty'']
  show "fst (add_fields s c new_fields) = Inr ?r"
    using ags(1) by (simp only: af)
  show "model_fields (classes (snd (add_fields s c new_fields)) ! ?r) = ?kw"
    using ags(2) fs by (simp only: af)
  show "compiled (classes (snd (add_fields s c new_fields)) ! ?r)"
    using ags(3) by (simp only: af)
qed

text \<open>
  C3, as the code has it. \<^verbatim>\<open>add_fields\<close> has no check for a name that the class
  already declares: the merged dictionary keeps one entry for it, with the new type.
  When no added name is \<^verbatim>\<open>cls\<close> and the merged schema holds no reserved name and only
  values that pass the test \<^verbatim>\<open>type(value) is type\<close>, none of them \<^verbatim>\<open>typing.Generic\<close>,
  the call returns a new class.
\<close>

theorem add_fields_overrides_duplicate:
  assumes "c < length (classes s)"
    and "n \<in> set (map fst new_fields)"
    and "n \<in> set (map fst (model_fields (classes s ! c)))"
    and "distinct (map fst new_fields)"
    and "\<forall>m \<in> set (map fst (model_fields (classes s ! c) @ new_fields)).
           m \<notin> set reserved_fields"
    and "\<forall>v \<in> set (map snd (model_fields (classes s ! c) @ new_fields)).
           type_is_type v \<and> v \<noteq> GenericV"
    and "''cls'' \<notin> set (map fst new_fields)"
  shows "\<exists>r. fst (add_fields s c new_fields) = Inr r \<and> r \<noteq> c \<and>
             distinct (map fst (model_fields (classes (snd (add_fields s c new_fields)) ! r))) \<and>
             map_of (model_fields (classes (snd (add_fields s c new_fields)) ! r)) n
               = map_of new_fields n"
proof -
  note ok = add_fields_ok [OF assms(5) assms(6) assms(7)]
  have "length (classes s) \<noteq> c"
    using assms(1) by simp
  moreover have "distinct (map fst (model_fields
      (classes (snd (add_fields s c new_fields)) ! length (classes s))))"
    by (simp only: ok(2) dict_of_distinct)
  moreover have "map_of (model_fields
      (classes (snd (add_fields s c new_fields)) ! length (classes s))) n = map_of new_fields n"
    by (simp only: ok(2) dict_of_append_lookup [OF assms(4) assms(2)])
  ultimately show ?thesis using ok(1) by blast
qed

lemma user_state_add_fields:
  "add_fields user_state 0 [(''username'', TypeV ''int'')] =
     (Inr 1,
      \<lparr>classes =
         [classes user_state ! 0,
          \<lparr>model_fields = [(''username'', TypeV ''int''), (''logged_in'', TypeV ''bool'')],
           model_attrs =
             [(''set_username'', Setter ''_username''),
              (''get_username'', Getter ''_username''),
              (''set_logged_in'', Setter ''_logged_in''),
              (''get_logged_in'', Getter ''_logged_in''),
              (''__init__'', Init)]\<rparr>],
       objs = []\<rparr>)"
  by (simp add: add_fields_def model_with_fields_def user_state_def dict_of_def
      reserved_fields_def add_getters_setters_def clean_getters_setters_def dir_model_def
      Model_attr_names_def clean_step_def)

theorem add_fields_overrides_duplicate_witness:
  "\<exists>r. fst (add_fields user_state 0 [(''username'', TypeV ''int'')]) = Inr r \<and> r \<noteq> 0 \<and>
       distinct (map fst (model_fields
         (classes (snd (add_fields user_state 0 [(''username'', TypeV ''int'')])) ! r))) \<and>
       map_of (model_fields
         (classes (snd (add_fields user_state 0 [(''username'', TypeV ''int'')])) ! r)) ''username''
         = Some (TypeV ''int'')"
  using add_fields_overrides_duplicate
    [of 0 user_state "''username''" "[(''username'', TypeV ''int'')]"]
  by (simp add: user_state_def reserved_fields_def)

text \<open>
  C3 as stated fails: adding \<^verbatim>\<open>username: int\<close> to the kind
  \<^verbatim>\<open>{username: str, logged_in: bool}\<close>, which declares \<^verbatim>\<open>username\<close> already, returns
  a class.
\<close>

theorem add_fields_duplicate_counterexample:
  "''username'' \<in> set (map fst [(''username'', TypeV ''int'')]) \<and>
   ''username'' \<in> set (map fst (model_fields (classes user_state ! 0))) \<and>
   fst (add_fields user_state 0 [(''username'', TypeV ''int'')]) = Inr 1"
  by (simp add: user_state_add_fields) (simp add: user_state_def)

subsection \<open>Compiled kinds and their instances\<close>

lemma model_with_fields_Inr:
  assumes "fst (model_with_fields s args kw) = Inr r"
  shows "args = []"
    and "\<forall>n \<in> set (map fst kw). n \<notin> set reserved_fields"
    and "\<forall>v \<in> set (map snd kw). type_is_type v \<and> v \<noteq> GenericV"
proof -
  show args: "args = []"
    using assms by (auto simp: model_with_fields_def split: if_splits)
  have none: "find (\<lambda>n. n \<in> set reserved_fields) (map fst kw) = None"
    using assms args by (auto simp: model_with_fields_def split: option.splits)
  then show res: "\<forall>n \<in> set (map fst kw). n \<notin> set reserved_fields"
    by (simp add: find_None_iff)
  have "fst (add_loop kw []) = None"
    using assms args
    by (simp add: model_with_fields_unreserved [OF res] add_getters_setters_result
        split: option.splits)
  then show "\<forall>v \<in> set (map snd kw). type_is_type v \<and> v \<noteq> GenericV"
    by (simp only: add_loop_ok_iff)
qed

lemma compile_yields:
  assumes "model_with_fields s0 [] kw = (Inr K, s1)"
  shows "model_fields (classes s1 ! K) = kw" and "compiled (classes s1 ! K)"
proof -
  have fst: "fst (model_with_fields s0 [] kw) = Inr K"
    using assms by simp
  note ok = model_with_fields_ok [OF model_with_fields_Inr(2) [OF fst]
      model_with_fields_Inr(3) [OF fst], of s0]
  have K: "K = length (classes s0)"
    using ok(1) fst by simp
  show "model_fields (classes s1 ! K) = kw"
    using ok(2) assms K by simp
  show "compiled (classes s1 ! K)"
    using ok(3) assms K by simp
qed

lemma setattr_inst_plain:
  "a \<notin> set data_descriptors \<Longrightarrow> setattr_inst d a v = Inr (AList.update a v d)"
  by (simp add: setattr_inst_def data_descriptors_def)

lemma private_keys_update:
  "private_keys d \<Longrightarrow> private_keys (AList.update (''_'' @ n) v d)"
  unfolding private_keys_def by (auto simp: dom_update)

lemma private_keys_no_accessor:
  assumes "private_keys d"
  shows "map_of d (''set_'' @ n) = None" and "map_of d (''get_'' @ n) = None"
proof -
  have "k \<noteq> ''set_'' @ n \<and> k \<noteq> ''get_'' @ n" if "k \<in> set (map fst d)" for k
  proof -
    from that assms have "take 1 k = ''_''"
      unfolding private_keys_def by blast
    then show ?thesis by auto
  qed
  then have "''set_'' @ n \<notin> fst ` set d" and "''get_'' @ n \<notin> fst ` set d"
    by auto
  then show "map_of d (''set_'' @ n) = None" and "map_of d (''get_'' @ n) = None"
    by (simp_all add: map_of_eq_None_iff)
qed

text \<open>
  One turn of the constructor's loop, for a field that has its setter and whose private
  name is an ordinary attribute.
\<close>

lemma init_loop_step:
  assumes "map_of ca (''set_'' @ n) = Some (Setter (''_'' @ n))"
    and "''_'' @ n \<notin> set data_descriptors"
    and "private_keys d"
  shows "init_loop ca kwargs (n # ns) d =
           init_loop ca kwargs ns
             (AList.update (''_'' @ n) (case map_of kwargs n of Some v \<Rightarrow> v | None \<Rightarrow> NoneV) d)"
  using assms(1) private_keys_no_accessor(1) [OF assms(3), of n]
    setattr_inst_plain [OF assms(2), of d]
  by (simp split: option.splits)

lemma init_loop_ok:
  assumes "\<forall>n \<in> set ns. map_of ca (''set_'' @ n) = Some (Setter (''_'' @ n)) \<and>
                          ''_'' @ n \<notin> set data_descriptors"
    and "private_keys d"
  shows "fst (init_loop ca kwargs ns d) = None \<and> private_keys (snd (init_loop ca kwargs ns d))"
  using assms
proof (induction ns arbitrary: d)
  case Nil
  then show ?case by simp
next
  case (Cons n ns)
  have step: "init_loop ca kwargs (n # ns) d =
           init_loop ca kwargs ns
             (AList.update (''_'' @ n) (case map_of kwargs n of Some v \<Rightarrow> v | None \<Rightarrow> NoneV) d)"
    using Cons.prems by (intro init_loop_step) simp_all
  show ?case
    unfolding step using Cons.prems
    by (intro Cons.IH private_keys_update) simp_all
qed

lemma init_loop_keeps:
  assumes "\<forall>n \<in> set ns. map_of ca (''set_'' @ n) = Some (Setter (''_'' @ n)) \<and>
                          ''_'' @ n \<notin> set data_descriptors"
    and "private_keys d"
    and "map_of d (''_'' @ f) = Some (case map_of kwargs f of Some v \<Rightarrow> v | None \<Rightarrow> NoneV)"
  shows "map_of (snd (init_loop ca kwargs ns d)) (''_'' @ f)
           = Some (case map_of kwargs f of Some v \<Rightarrow> v | None \<Rightarrow> NoneV)"
  using assms
proof (induction ns arbitrary: d)
  case Nil
  then show ?case by simp
next
  case (Cons n ns)
  let ?d = "AList.update (''_'' @ n) (case map_of kwargs n of Some v \<Rightarrow> v | None \<Rightarrow> NoneV) d"
  have step: "init_loop ca kwargs (n # ns) d = init_loop ca kwargs ns ?d"
    using Cons.prems by (intro init_loop_step) simp_all
  have "map_of ?d (''_'' @ f) = Some (case map_of kwargs f of Some v \<Rightarrow> v | None \<Rightarrow> NoneV)"
    using Cons.prems(3) by (cases "n = f") (simp_all add: update_conv')
  then show ?case
    unfolding step using Cons.prems(1,2)
    by (intro Cons.IH private_keys_update) simp_all
qed

lemma init_loop_sets:
  assumes "\<forall>n \<in> set ns. map_of ca (''set_'' @ n) = Some (Setter (''_'' @ n)) \<and>
                          ''_'' @ n \<notin> set data_descriptors"
    and "private_keys d"
    and "f \<in> set ns"
  shows "map_of (snd (init_loop ca kwargs ns d)) (''_'' @ f)
           = Some (case map_of kwargs f of Some v \<Rightarrow> v | None \<Rightarrow> NoneV)"
  using assms
proof (induction ns arbitrary: d)
  case Nil
  then show ?case by simp
next
  case (Cons n ns)
  let ?d = "AList.update (''_'' @ n) (case map_of kwargs n of Some v \<Rightarrow> v | None \<Rightarrow> NoneV) d"
  have step: "init_loop ca kwargs (n # ns) d = init_loop ca kwargs ns ?d"
    using Cons.prems by (intro init_loop_step) simp_all
  have rest: "\<forall>n \<in> set ns. map_of ca (''set_'' @ n) = Some (Setter (''_'' @ n)) \<and>
                          ''_'' @ n \<notin> set data_descriptors"
    using Cons.prems(1) by simp
  have priv: "private_keys ?d"
    using Cons.prems(2) by (rule private_keys_update)
  show ?case
  proof (cases "f = n")
    case True
    have "map_of ?d (''_'' @ f) = Some (case map_of kwargs f of Some v \<Rightarrow> v | None \<Rightarrow> NoneV)"
      using True by (simp add: update_conv')
    from init_loop_keeps [OF rest priv this] show ?thesis
      unfolding step .
  next
    case False
    with Cons.prems(3) have "f \<in> set ns" by simp
    from Cons.IH [OF rest priv this] show ?thesis
      unfolding step .
  qed
qed



lemma new_instance_compiled:
  assumes "compiled (classes s ! c)"
    and "\<forall>n \<in> set (map fst (model_fields (classes s ! c))). ''_'' @ n \<notin> set data_descriptors"
    and "''self'' \<notin> set (map fst kwargs)"
  shows "fst (new_instance s c kwargs) = Inr (length (objs s))"
    and "classes (snd (new_instance s c kwargs)) = classes s"
    and "objs (snd (new_instance s c kwargs)) ! length (objs s) =
           \<lparr>cls = c,
            idict = snd (init_loop (model_attrs (classes s ! c)) kwargs
                           (map fst (model_fields (classes s ! c))) [])\<rparr>"
    and "private_keys (snd (init_loop (model_attrs (classes s ! c)) kwargs
                           (map fst (model_fields (classes s ! c))) []))"
proof -
  let ?m = "classes s ! c"
  have init: "map_of (model_attrs ?m) ''__init__'' = Some Init"
    using assms(1) by (simp add: compiled_def)
  have "\<forall>n \<in> set (map fst (model_fields ?m)).
          map_of (model_attrs ?m) (''set_'' @ n) = Some (Setter (''_'' @ n)) \<and>
          ''_'' @ n \<notin> set data_descriptors"
    using assms(1,2) unfolding compiled_def by blast
  moreover have "private_keys []"
    by (simp add: private_keys_def)
  ultimately have ok:
    "fst (init_loop (model_attrs ?m) kwargs (map fst (model_fields ?m)) []) = None \<and>
     private_keys (snd (init_loop (model_attrs ?m) kwargs (map fst (model_fields ?m)) []))"
    by (rule init_loop_ok)
  then obtain d where d: "init_loop (model_attrs ?m) kwargs (map fst (model_fields ?m)) [] = (None, d)"
    by (cases "init_loop (model_attrs ?m) kwargs (map fst (model_fields ?m)) []") simp
  show "fst (new_instance s c kwargs) = Inr (length (objs s))"
    using init d assms(3) by (simp add: new_instance_def Let_def)
  show "classes (snd (new_instance s c kwargs)) = classes s"
    using init d assms(3) by (simp add: new_instance_def Let_def)
  show "objs (snd (new_instance s c kwargs)) ! length (objs s) =
           \<lparr>cls = c,
            idict = snd (init_loop (model_attrs ?m) kwargs (map fst (model_fields ?m)) [])\<rparr>"
    using init d assms(3) by (simp add: new_instance_def Let_def)
  show "private_keys (snd (init_loop (model_attrs ?m) kwargs (map fst (model_fields ?m)) []))"
    using ok by simp
qed





text \<open>
  C6, as the code has it. For a compiled kind none of whose fields has the private name
  \<^verbatim>\<open>__class__\<close>, \<^verbatim>\<open>__dict__\<close> or \<^verbatim>\<open>__weakref__\<close>, an instance built with no
  constructor argument is built without error, and the getter of every declared field
  returns \<^verbatim>\<open>None\<close> on it.
\<close>

theorem fresh_instance_absent:
  assumes "model_with_fields s0 [] kw = (Inr K, s1)"
    and "classes s ! K = classes s1 ! K"
    and "f \<in> set (map fst kw)"
    and "\<forall>n \<in> set (map fst kw). ''_'' @ n \<notin> set data_descriptors"
  shows "fst (new_instance s K []) = Inr (length (objs s)) \<and>
         call_get (snd (new_instance s K [])) (length (objs s)) f = Inr (Val NoneV)"
proof -
  note c = compile_yields [OF assms(1)]
  have fs: "model_fields (classes s ! K) = kw"
    using assms(2) c(1) by simp
  have f: "f \<in> set (map fst (model_fields (classes s ! K)))"
    using assms(3) fs by simp
  have plain: "\<forall>n \<in> set (map fst (model_fields (classes s ! K))). ''_'' @ n \<notin> set data_descriptors"
    using assms(4) fs by simp
  have cmp: "compiled (classes s ! K)"
    using assms(2) c(2) by simp
  have setters: "\<forall>n \<in> set (map fst (model_fields (classes s ! K))).
      map_of (model_attrs (classes s ! K)) (''set_'' @ n) = Some (Setter (''_'' @ n)) \<and>
      ''_'' @ n \<notin> set data_descriptors"
    using cmp plain unfolding compiled_def by blast
  have getter: "map_of (model_attrs (classes s ! K)) (''get_'' @ f) = Some (Getter (''_'' @ f))"
    using cmp f unfolding compiled_def by blast
  have self: "''self'' \<notin> set (map fst ([] :: (name \<times> pyval) list))"
    by simp
  note ni = new_instance_compiled [OF cmp plain self]
  let ?d = "snd (init_loop (model_attrs (classes s ! K)) [] (map fst (model_fields (classes s ! K))) [])"
  have empty: "private_keys []"
    by (simp add: private_keys_def)
  have held: "map_of ?d (''_'' @ f) = Some NoneV"
    using init_loop_sets [OF setters empty f, of "[]"] by simp
  have no_get: "map_of ?d (''get_'' @ f) = None"
    using private_keys_no_accessor(2) [OF ni(4)] .
  have "''_'' @ f \<notin> set data_descriptors"
    using plain f by blast
  then have "call_get (snd (new_instance s K [])) (length (objs s)) f = Inr (Val NoneV)"
    using getter held no_get by (simp add: call_get_def impl_getter_def ni(2) ni(3))
  with ni(1) show ?thesis by simp
qed

theorem fresh_instance_absent_witness:
  "fst (new_instance user_state 0 []) = Inr 0 \<and>
   call_get (snd (new_instance user_state 0 [])) 0 ''logged_in'' = Inr (Val NoneV)"
proof -
  have "classes user_state ! 0 = classes user_state ! 0"
    and "''logged_in'' \<in> set (map fst [(''username'', TypeV ''str''), (''logged_in'', TypeV ''bool'')])"
    and "\<forall>n \<in> set (map fst [(''username'', TypeV ''str''), (''logged_in'', TypeV ''bool'')]).
           ''_'' @ n \<notin> set data_descriptors"
    by (simp_all add: data_descriptors_def)
  from fresh_instance_absent [OF user_state_compiled this]
  show ?thesis by (simp add: user_state_def)
qed

text \<open>
  C6 as stated fails for the kind \<^verbatim>\<open>{_class__: int}\<close>: it compiles, and the
  constructor without arguments raises a \<open>TypeError\<close>, since it sets the private name
  \<^verbatim>\<open>__class__\<close> to \<^verbatim>\<open>None\<close>.
\<close>

theorem fresh_instance_absent_counterexample:
  "fst (model_with_fields empty_state [] [(''_class__'', TypeV ''int'')]) = Inr 0 \<and>
   fst (new_instance (snd (model_with_fields empty_state [] [(''_class__'', TypeV ''int'')])) 0 [])
     = Inl (TypeError ''__class__ must be set to a class'')"
  by (simp add: model_with_fields_def empty_state_def reserved_fields_def
      add_getters_setters_def clean_getters_setters_def dir_model_def
      Model_attr_names_def clean_step_def new_instance_def setattr_inst_def)




end
